theory Spec2Isabelle
  imports Complex_Main "HOL-Library.AList"
begin

section \<open>Python values\<close>

text \<open>
  The payloads of the vendor API are what \<^verbatim>\<open>json.loads\<close> returns: \<^verbatim>\<open>None\<close>, booleans,
  unbounded integers, floats, strings, lists and dictionaries with string keys. A float is
  modelled by its exact value when it is finite; \<^verbatim>\<open>json.loads\<close> also accepts the three
  non-finite literals. A dictionary is an association list in insertion order; a Python
  dictionary never holds a key twice, so the theorems that depend on it assume
  \<open>distinct (map fst d)\<close>. A string is a list of characters, one \<open>char\<close> per code point
  (code points below 256).
\<close>

datatype pyfloat = Finite rat | PosInf | NegInf | NaN

datatype json =
    JNull
  | JBool bool
  | JInt int
  | JFloat pyfloat
  | JStr string
  | JArr "json list"
  | JObj "(string \<times> json) list"

type_synonym dict = "(string \<times> json) list"

text \<open>\<^verbatim>\<open>isinstance(x, list)\<close>, \<^verbatim>\<open>isinstance(x, dict)\<close>.\<close>

fun is_list :: "json \<Rightarrow> bool" where
  "is_list (JArr xs) = True"
| "is_list v = False"

fun is_dict :: "json \<Rightarrow> bool" where
  "is_dict (JObj d) = True"
| "is_dict v = False"

text \<open>
  The comprehension \<^verbatim>\<open>[item for item in value if isinstance(item, dict)]\<close>: the
  dictionaries among the elements, in order.
\<close>

fun dicts_of :: "json list \<Rightarrow> dict list" where
  "dicts_of [] = []"
| "dicts_of (JObj d # xs) = d # dicts_of xs"
| "dicts_of (v # xs) = dicts_of xs"

text \<open>\<^verbatim>\<open>d.get(k)\<close>, \<^verbatim>\<open>d.get(k, default)\<close>, \<^verbatim>\<open>k in d\<close> and \<^verbatim>\<open>d[k] = v\<close>.\<close>

definition py_get :: "dict \<Rightarrow> string \<Rightarrow> json" where
  "py_get d k = (case map_of d k of None \<Rightarrow> JNull | Some v \<Rightarrow> v)"

definition py_get_default :: "dict \<Rightarrow> string \<Rightarrow> json \<Rightarrow> json" where
  "py_get_default d k dflt = (case map_of d k of None \<Rightarrow> dflt | Some v \<Rightarrow> v)"

definition has_key :: "dict \<Rightarrow> string \<Rightarrow> bool" where
  "has_key d k = (map_of d k \<noteq> None)"

definition dict_set :: "string \<Rightarrow> json \<Rightarrow> dict \<Rightarrow> dict" where
  "dict_set k v d = AList.update k v d"

text \<open>
  Python's \<^verbatim>\<open>==\<close> between a decoded value and an integer or a string constant: a
  boolean is the integer 0 or 1, a finite float is compared by value, and a value of
  another type is never equal.
\<close>

fun py_eq_int :: "json \<Rightarrow> int \<Rightarrow> bool" where
  "py_eq_int (JInt i) k = (i = k)"
| "py_eq_int (JBool b) k = ((if b then 1 else 0) = k)"
| "py_eq_int (JFloat (Finite r)) k = (r = of_int k)"
| "py_eq_int v k = False"

fun py_eq_str :: "json \<Rightarrow> string \<Rightarrow> bool" where
  "py_eq_str (JStr t) s = (t = s)"
| "py_eq_str v s = False"

subsection \<open>Strings\<close>

text \<open>\<^verbatim>\<open>sub in s\<close> for strings.\<close>

fun starts_with :: "string \<Rightarrow> string \<Rightarrow> bool" where
  "starts_with s [] = True"
| "starts_with [] (p # ps) = False"
| "starts_with (c # cs) (p # ps) = (c = p \<and> starts_with cs ps)"

fun str_contains :: "string \<Rightarrow> string \<Rightarrow> bool" where
  "str_contains sub [] = (sub = [])"
| "str_contains sub (c # cs) = (starts_with (c # cs) sub \<or> str_contains sub cs)"

text \<open>
  \<^verbatim>\<open>str.lower()\<close> on code points below 256: the ASCII capitals and the capitals of
  the Latin-1 block (all of 0xC0..0xDE but the multiplication sign 0xD7) move up by 32.
\<close>

definition lower_char :: "char \<Rightarrow> char" where
  "lower_char c =
     (let n = (of_char c :: nat)
      in if (65 \<le> n \<and> n \<le> 90) \<or> (192 \<le> n \<and> n \<le> 222 \<and> n \<noteq> 215)
         then char_of (n + 32) else c)"

definition lower :: "string \<Rightarrow> string" where
  "lower s = map lower_char s"

text \<open>Decimal digits of an integer: \<^verbatim>\<open>str(i)\<close>, and what \<^verbatim>\<open>json.dumps\<close> writes.\<close>

function digits :: "nat \<Rightarrow> string" where
  "digits n = (if n < 10 then [char_of (48 + n)] else digits (n div 10) @ [char_of (48 + n mod 10)])"
  by pat_completeness auto
termination
  by (relation "measure id") auto

definition str_int :: "int \<Rightarrow> string" where
  "str_int i = (if i < 0 then CHR ''-'' # digits (nat (- i)) else digits (nat i))"

text \<open>
  \<^verbatim>\<open>str(x)\<close>. A string is returned as it is; \<^verbatim>\<open>None\<close>, booleans and integers are
  written out. The text Python prints for a float, a list or a dictionary is left to the
  parameter \<open>rp\<close> (\<^verbatim>\<open>repr\<close>): no property below depends on it.
\<close>

fun py_str :: "(json \<Rightarrow> string) \<Rightarrow> json \<Rightarrow> string" where
  "py_str rp (JStr s) = s"
| "py_str rp JNull = ''None''"
| "py_str rp (JBool b) = (if b then ''True'' else ''False'')"
| "py_str rp (JInt i) = str_int i"
| "py_str rp v = rp v"

section \<open>The API client (api.py)\<close>

subsection \<open>Errors\<close>

text \<open>
  \<^verbatim>\<open>StokerCloudAuthError\<close> is a subclass of \<^verbatim>\<open>StokerCloudError\<close>;
  \<^verbatim>\<open>ConfigEntryAuthFailed\<close> and \<^verbatim>\<open>UpdateFailed\<close> are the host framework's. The
  string is \<^verbatim>\<open>str(err)\<close>.
\<close>

datatype error =
    StokerCloudError string
  | StokerCloudAuthError string
  | ConfigEntryAuthFailed string
  | UpdateFailed string
  | NameError string
  | AttributeError string

fun is_StokerCloudAuthError :: "error \<Rightarrow> bool" where
  "is_StokerCloudAuthError (StokerCloudAuthError m) = True"
| "is_StokerCloudAuthError e = False"

fun is_StokerCloudError :: "error \<Rightarrow> bool" where
  "is_StokerCloudError (StokerCloudError m) = True"
| "is_StokerCloudError (StokerCloudAuthError m) = True"
| "is_StokerCloudError e = False"

fun err_str :: "error \<Rightarrow> string" where
  "err_str (StokerCloudError m) = m"
| "err_str (StokerCloudAuthError m) = m"
| "err_str (ConfigEntryAuthFailed m) = m"
| "err_str (UpdateFailed m) = m"
| "err_str (NameError m) = m"
| "err_str (AttributeError m) = m"

subsection \<open>Constants (const.py) and the names api.py binds\<close>

definition API_BASE :: string where
  "API_BASE = ''https://stokercloud.dk/v2/dataout2''"

definition LOGIN_PATH :: string where
  "LOGIN_PATH = ''login.php''"

definition CONTROLLER_DATA_PATH :: string where
  "CONTROLLER_DATA_PATH = ''controllerdata2.php''"

definition EVENT_DATA_PATH :: string where
  "EVENT_DATA_PATH = ''geteventdata.php''"

definition TRANSLATION_BASE :: string where
  "TRANSLATION_BASE = ''https://stokercloud.dk/v3/assets/json/translation''"

definition DEFAULT_TRANSLATION_LANGUAGE :: string where
  "DEFAULT_TRANSLATION_LANGUAGE = ''uk''"

definition DEFAULT_EVENT_COUNT :: int where
  "DEFAULT_EVENT_COUNT = 100"

definition DEFAULT_EVENT_OFFSET :: int where
  "DEFAULT_EVENT_OFFSET = 0"

definition DEFAULT_SCREEN :: string where
  "DEFAULT_SCREEN =
     ''b1,3,b2,5,b3,4,b4,6,b5,12,b6,14,b7,15,b8,16,b9,9,'' @
     ''b10,0,'' @
     ''d1,3,d2,4,d3,0,d4,0,d5,0,d6,0,d7,0,d8,0,d9,0,d10,0,'' @
     ''h1,2,h2,3,h3,4,h4,7,h5,8,h6,0,h7,0,h8,0,h9,0,h10,0,'' @
     ''w1,2,w2,3,w3,9,w4,0,w5,0''"

text \<open>
  A module reads a constant of const.py through its own global names. api.py binds five of
  them (\<^verbatim>\<open>from .const import API_BASE, CONTROLLER_DATA_PATH, DEFAULT_SCREEN,
  EVENT_DATA_PATH, TRANSLATION_BASE\<close>, lines 9 to 15); reading any other name raises
  \<^verbatim>\<open>NameError\<close>. The namespace is a parameter of the client's operations, and
  \<open>api_globals\<close> is the one the source file has.
\<close>

type_synonym namespace = "(string \<times> string) list"

definition api_globals :: namespace where
  "api_globals =
     [(''API_BASE'', API_BASE),
      (''CONTROLLER_DATA_PATH'', CONTROLLER_DATA_PATH),
      (''DEFAULT_SCREEN'', DEFAULT_SCREEN),
      (''EVENT_DATA_PATH'', EVENT_DATA_PATH),
      (''TRANSLATION_BASE'', TRANSLATION_BASE)]"

definition global_name :: "namespace \<Rightarrow> string \<Rightarrow> error + string" where
  "global_name g n = (case map_of g n of None \<Rightarrow> Inl (NameError n) | Some v \<Rightarrow> Inr v)"

subsection \<open>The transport\<close>

text \<open>
  The HTTP session is not the client's: a request is answered by the world \<open>'w\<close>, which
  the answer may change. \<^verbatim>\<open>resp.json(content_type=None)\<close> gives the decoded body, or
  the request fails with aiohttp's \<^verbatim>\<open>ClientError\<close>, or the body is not JSON
  (\<^verbatim>\<open>ValueError\<close>).
\<close>

record request =
  http_method :: string
  url :: string
  params :: dict

datatype response = ClientError string | ValueError | Body json

type_synonym 'w transport = "request \<Rightarrow> 'w \<Rightarrow> response \<times> 'w"

subsection \<open>\<^verbatim>\<open>_request_json\<close>\<close>

text \<open>
  The message hint of lines 132 to 135: \<^verbatim>\<open>"token" in lowered and any(hint in lowered
  for hint in ("expired", "invalid", "reject"))\<close>.
\<close>

definition token_hint :: "string \<Rightarrow> bool" where
  "token_hint lowered =
     (str_contains ''token'' lowered \<and>
      list_ex (\<lambda>hint. str_contains hint lowered) [''expired'', ''invalid'', ''reject''])"

text \<open>
  The checks on the decoded payload (lines 119 to 139). \<^verbatim>\<open>status not in (None, 0, "0")\<close>
  and \<^verbatim>\<open>status in (401, 403, "401", "403")\<close> compare with \<^verbatim>\<open>==\<close>.
\<close>

definition status_ok :: "json \<Rightarrow> bool" where
  "status_ok status = (status = JNull \<or> py_eq_int status 0 \<or> py_eq_str status ''0'')"

definition status_auth :: "json \<Rightarrow> bool" where
  "status_auth status =
     (py_eq_int status 401 \<or> py_eq_int status 403 \<or>
      py_eq_str status ''401'' \<or> py_eq_str status ''403'')"

fun request_json_checks :: "(json \<Rightarrow> string) \<Rightarrow> json \<Rightarrow> error + json" where
  "request_json_checks rp (JObj payload) =
     (let status = py_get payload ''status''
      in if \<not> status_ok status then
           (let message = py_get_default payload ''message'' (JStr ''Request failed'');
                message_text = py_str rp message
            in if status_auth status then Inl (StokerCloudAuthError message_text)
               else (let lowered = lower message_text
                     in if token_hint lowered then Inl (StokerCloudAuthError message_text)
                        else Inl (StokerCloudError message_text)))
         else Inr (JObj payload))"
| "request_json_checks rp (JArr payload) = Inr (JArr payload)"
| "request_json_checks rp payload = Inl (StokerCloudError ''Unexpected response type'')"

definition request_json ::
  "(json \<Rightarrow> string) \<Rightarrow> 'w transport \<Rightarrow> request \<Rightarrow> 'w \<Rightarrow> (error + json) \<times> 'w" where
  "request_json rp tr req w =
     (case tr req w of
        (ClientError m, w') \<Rightarrow> (Inl (StokerCloudError m), w')
      | (ValueError, w') \<Rightarrow> (Inl (StokerCloudError ''Invalid JSON response''), w')
      | (Body payload, w') \<Rightarrow> (request_json_checks rp payload, w'))"

subsection \<open>\<^verbatim>\<open>login\<close>\<close>

record LoginResult =
  token :: string
  credentials :: json
  master :: json

text \<open>
  Lines 44 to 51, on what \<^verbatim>\<open>_request_json\<close> returned. \<^verbatim>\<open>data.get\<close> exists on a
  dictionary only.
\<close>

fun login_checks :: "(json \<Rightarrow> string) \<Rightarrow> json \<Rightarrow> error + LoginResult" where
  "login_checks rp (JObj data) =
     (if \<not> py_eq_int (py_get data ''status'') 0 \<or> \<not> has_key data ''token''
      then Inl (StokerCloudAuthError (py_str rp (py_get_default data ''message'' (JStr ''Login failed''))))
      else Inr \<lparr> token = py_str rp (py_get data ''token''),
                 credentials = py_get data ''credentials'',
                 master = py_get data ''master'' \<rparr>)"
| "login_checks rp data = Inl (AttributeError ''get'')"

text \<open>
  \<^verbatim>\<open>login\<close>, lines 39 to 51. The URL is built first, from \<^verbatim>\<open>API_BASE\<close> and
  \<^verbatim>\<open>LOGIN_PATH\<close>; a name the module does not bind ends the call before any request.
\<close>

definition login ::
  "namespace \<Rightarrow> (json \<Rightarrow> string) \<Rightarrow> 'w transport \<Rightarrow> string \<Rightarrow> 'w \<Rightarrow> (error + LoginResult) \<times> 'w" where
  "login g rp tr username w =
     (case global_name g ''API_BASE'' of
        Inl e \<Rightarrow> (Inl e, w)
      | Inr base \<Rightarrow>
          (case global_name g ''LOGIN_PATH'' of
             Inl e \<Rightarrow> (Inl e, w)
           | Inr path \<Rightarrow>
               (case request_json rp tr
                       \<lparr> http_method = ''post'', url = base @ ''/'' @ path,
                         params = [(''user'', JStr username)] \<rparr> w of
                  (Inl e, w') \<Rightarrow> (Inl e, w')
                | (Inr data, w') \<Rightarrow> (login_checks rp data, w'))))"

subsection \<open>\<^verbatim>\<open>_extract_events\<close>\<close>

text \<open>The first loop (lines 94 to 97), over the candidate keys.\<close>

fun first_list_key :: "dict \<Rightarrow> string list \<Rightarrow> json list option" where
  "first_list_key payload [] = None"
| "first_list_key payload (key # keys) =
     (case py_get payload key of
        JArr value \<Rightarrow> Some value
      | _ \<Rightarrow> first_list_key payload keys)"

text \<open>
  The second loop (lines 99 to 103), over \<^verbatim>\<open>payload.values()\<close>:
  \<^verbatim>\<open>any(isinstance(item, dict) for item in value)\<close> is \<open>list_ex is_dict\<close>.
\<close>

fun first_list_value :: "json list \<Rightarrow> json list option" where
  "first_list_value [] = None"
| "first_list_value (JArr value # values) =
     (if list_ex is_dict value then Some value else first_list_value values)"
| "first_list_value (v # values) = first_list_value values"

fun extract_events :: "json \<Rightarrow> dict list" where
  "extract_events (JArr payload) = dicts_of payload"
| "extract_events (JObj payload) =
     (case first_list_key payload [''events'', ''eventdata'', ''data'', ''items'', ''rows'', ''log''] of
        Some value \<Rightarrow> dicts_of value
      | None \<Rightarrow>
          (case first_list_value (map snd payload) of
             Some value \<Rightarrow> dicts_of value
           | None \<Rightarrow> []))"
| "extract_events payload = []"

subsection \<open>\<^verbatim>\<open>fetch_event_data\<close> and \<^verbatim>\<open>fetch_translations\<close>\<close>

definition fetch_event_data ::
  "namespace \<Rightarrow> (json \<Rightarrow> string) \<Rightarrow> 'w transport \<Rightarrow> string \<Rightarrow> int \<Rightarrow> int \<Rightarrow> 'w \<Rightarrow> (error + dict) \<times> 'w" where
  "fetch_event_data g rp tr tok count offset w =
     (case global_name g ''API_BASE'' of
        Inl e \<Rightarrow> (Inl e, w)
      | Inr base \<Rightarrow>
          (case global_name g ''EVENT_DATA_PATH'' of
             Inl e \<Rightarrow> (Inl e, w)
           | Inr path \<Rightarrow>
               (case request_json rp tr
                       \<lparr> http_method = ''get'', url = base @ ''/'' @ path,
                         params = [(''count'', JInt count), (''offset'', JInt offset),
                                   (''token'', JStr tok)] \<rparr> w of
                  (Inl e, w') \<Rightarrow> (Inl e, w')
                | (Inr payload, w') \<Rightarrow>
                    (Inr [(''raw'', payload),
                          (''events'', JArr (map JObj (extract_events payload)))], w'))))"

text \<open>
  The comprehension of \<^verbatim>\<open>fetch_translations\<close>: the pairs whose value is a string (a
  key of a decoded object always is one).
\<close>

fun str_items :: "dict \<Rightarrow> (string \<times> string) list" where
  "str_items [] = []"
| "str_items ((key, JStr value) # items) = (key, value) # str_items items"
| "str_items ((key, v) # items) = str_items items"

fun translation_table :: "json \<Rightarrow> error + (string \<times> string) list" where
  "translation_table (JObj payload) = Inr (str_items payload)"
| "translation_table payload = Inl (StokerCloudError ''Unexpected translation payload'')"

definition fetch_translations ::
  "namespace \<Rightarrow> (json \<Rightarrow> string) \<Rightarrow> 'w transport \<Rightarrow> string \<Rightarrow> 'w \<Rightarrow> (error + (string \<times> string) list) \<times> 'w" where
  "fetch_translations g rp tr language w =
     (case global_name g ''TRANSLATION_BASE'' of
        Inl e \<Rightarrow> (Inl e, w)
      | Inr base \<Rightarrow>
          (case request_json rp tr
                  \<lparr> http_method = ''get'', url = base @ ''/'' @ language @ ''.json'', params = [] \<rparr> w of
             (Inl e, w') \<Rightarrow> (Inl e, w')
           | (Inr payload, w') \<Rightarrow> (translation_table payload, w')))"

section \<open>The coordinator set-up (__init__.py)\<close>

subsection \<open>Translations\<close>

text \<open>
  Lines 39 to 43: the table is fetched once; a \<^verbatim>\<open>StokerCloudError\<close> leaves
  \<^verbatim>\<open>translations\<close> at \<^verbatim>\<open>None\<close>, any other exception ends the set-up.
\<close>

definition load_translations ::
  "namespace \<Rightarrow> (json \<Rightarrow> string) \<Rightarrow> 'w transport \<Rightarrow> 'w \<Rightarrow> (error + (string \<times> string) list option) \<times> 'w" where
  "load_translations g rp tr w =
     (case fetch_translations g rp tr DEFAULT_TRANSLATION_LANGUAGE w of
        (Inr table, w') \<Rightarrow> (Inr (Some table), w')
      | (Inl err, w') \<Rightarrow> (if is_StokerCloudError err then Inr None else Inl err, w'))"

text \<open>
  \<^verbatim>\<open>_apply_translations\<close>, lines 45 to 55. The inner loop runs over the items of the
  event and writes into the copy \<open>out\<close>.
\<close>

fun translate_items :: "(string \<times> string) list \<Rightarrow> dict \<Rightarrow> dict \<Rightarrow> dict" where
  "translate_items translations [] out = out"
| "translate_items translations ((key, JStr value) # items) out =
     translate_items translations items
       (case map_of translations value of
          Some text \<Rightarrow> dict_set (key @ ''_translated'') (JStr text) out
        | None \<Rightarrow> out)"
| "translate_items translations ((key, v) # items) out = translate_items translations items out"

definition translate_event :: "(string \<times> string) list \<Rightarrow> dict \<Rightarrow> dict" where
  "translate_event translations event = translate_items translations event event"

text \<open>\<^verbatim>\<open>not translations\<close> holds for \<^verbatim>\<open>None\<close> and for the empty dictionary.\<close>

fun apply_translations :: "(string \<times> string) list option \<Rightarrow> dict list \<Rightarrow> dict list" where
  "apply_translations None events = events"
| "apply_translations (Some []) events = events"
| "apply_translations (Some translations) events = map (translate_event translations) events"

subsection \<open>The token guard: \<^verbatim>\<open>_fetch_with_auth_retry\<close>\<close>

text \<open>
  The closure's \<^verbatim>\<open>token\<close> is \<open>cached_token\<close>. \<open>login_calls\<close> and \<open>fetch_calls\<close> count
  the calls of \<^verbatim>\<open>client.login\<close> and of the fetcher. \<^verbatim>\<open>client.login(username)\<close> and the
  fetcher are parameters: each answers from the world and may change it. The model is one
  call running alone; the lock and the interleaving of several calls are not part of it.
\<close>

record 'w guard =
  cached_token :: "string option"
  world :: 'w
  login_calls :: nat
  fetch_calls :: nat

text \<open>\<^verbatim>\<open>token = (await client.login(username)).token\<close>\<close>

definition call_login ::
  "('w \<Rightarrow> (error + LoginResult) \<times> 'w) \<Rightarrow> 'w guard \<Rightarrow> (error + string) \<times> 'w guard" where
  "call_login lg s =
     (case lg (world s) of
        (Inl e, w') \<Rightarrow> (Inl e, s\<lparr> world := w', login_calls := Suc (login_calls s) \<rparr>)
      | (Inr r, w') \<Rightarrow>
          (Inr (token r),
           s\<lparr> cached_token := Some (token r), world := w', login_calls := Suc (login_calls s) \<rparr>))"

text \<open>\<^verbatim>\<open>await fetcher(current_token)\<close>\<close>

definition call_fetcher ::
  "(string \<Rightarrow> 'w \<Rightarrow> (error + 'a) \<times> 'w) \<Rightarrow> string \<Rightarrow> 'w guard \<Rightarrow> (error + 'a) \<times> 'w guard" where
  "call_fetcher fetcher current_token s =
     (case fetcher current_token (world s) of
        (r, w') \<Rightarrow> (r, s\<lparr> world := w', fetch_calls := Suc (fetch_calls s) \<rparr>))"

text \<open>\<^verbatim>\<open>except StokerCloudAuthError as err2: raise ConfigEntryAuthFailed(str(err2))\<close>\<close>

definition auth_failed :: "error \<Rightarrow> error" where
  "auth_failed err2 =
     (if is_StokerCloudAuthError err2 then ConfigEntryAuthFailed (err_str err2) else err2)"

text \<open>
  Lines 62 to 65: \<^verbatim>\<open>if token is None: token = (await client.login(username)).token\<close>,
  then \<^verbatim>\<open>current_token = token\<close>.
\<close>

definition acquire_token ::
  "('w \<Rightarrow> (error + LoginResult) \<times> 'w) \<Rightarrow> 'w guard \<Rightarrow> (error + string) \<times> 'w guard" where
  "acquire_token lg s = (case cached_token s of None \<Rightarrow> call_login lg s | Some t \<Rightarrow> (Inr t, s))"

text \<open>Lines 67 to 76: the attempt, and on \<^verbatim>\<open>StokerCloudAuthError\<close> the forced login and the retry.\<close>

definition fetch_with_auth_retry ::
  "('w \<Rightarrow> (error + LoginResult) \<times> 'w) \<Rightarrow> (string \<Rightarrow> 'w \<Rightarrow> (error + 'a) \<times> 'w) \<Rightarrow> 'w guard
     \<Rightarrow> (error + 'a) \<times> 'w guard" where
  "fetch_with_auth_retry lg fetcher s =
     (case acquire_token lg s of
        (Inl e, s1) \<Rightarrow> (Inl e, s1)
      | (Inr current_token, s1) \<Rightarrow>
          (case call_fetcher fetcher current_token s1 of
             (Inr v, s2) \<Rightarrow> (Inr v, s2)
           | (Inl e, s2) \<Rightarrow>
               if is_StokerCloudAuthError e then
                 (case call_login lg s2 of
                    (Inl err2, s3) \<Rightarrow> (Inl (auth_failed err2), s3)
                  | (Inr current_token', s3) \<Rightarrow>
                      (case call_fetcher fetcher current_token' s3 of
                         (Inr v, s4) \<Rightarrow> (Inr v, s4)
                       | (Inl err2, s4) \<Rightarrow> (Inl (auth_failed err2), s4)))
               else (Inl e, s2)))"

subsection \<open>\<^verbatim>\<open>_async_update_event_data\<close>\<close>

text \<open>Lines 104 to 113, on the dictionary the guarded fetch returned.\<close>

definition stamp_event_data :: "(string \<times> string) list option \<Rightarrow> dict \<Rightarrow> dict" where
  "stamp_event_data translations data =
     (let data1 = (case py_get data ''events'' of
                     JArr events \<Rightarrow>
                       dict_set ''events''
                         (JArr (map JObj (apply_translations translations (dicts_of events)))) data
                   | _ \<Rightarrow> data);
          data2 = dict_set ''count'' (JInt DEFAULT_EVENT_COUNT) data1;
          data3 = dict_set ''offset'' (JInt DEFAULT_EVENT_OFFSET) data2;
          data4 = dict_set ''translation_language'' (JStr DEFAULT_TRANSLATION_LANGUAGE) data3
      in dict_set ''translations_loaded'' (JBool (translations \<noteq> None)) data4)"

definition async_update_event_data ::
  "namespace \<Rightarrow> (json \<Rightarrow> string) \<Rightarrow> 'w transport \<Rightarrow> string \<Rightarrow> (string \<times> string) list option
     \<Rightarrow> 'w guard \<Rightarrow> (error + dict) \<times> 'w guard" where
  "async_update_event_data g rp tr username translations s =
     (case fetch_with_auth_retry (login g rp tr username)
             (\<lambda>t. fetch_event_data g rp tr t DEFAULT_EVENT_COUNT DEFAULT_EVENT_OFFSET) s of
        (Inl err, s') \<Rightarrow>
          (Inl (if is_StokerCloudError err then UpdateFailed (err_str err) else err), s')
      | (Inr data, s') \<Rightarrow> (Inr (stamp_event_data translations data), s'))"

section \<open>The event log sensor (sensor.py)\<close>

subsection \<open>\<^verbatim>\<open>json.dumps(candidate, separators=(",", ":"), ensure_ascii=False)\<close>\<close>

text \<open>
  The encoder escapes the quote, the backslash and the control characters below 0x20 and
  writes every other character as it is. The text of a finite float is \<^verbatim>\<open>repr\<close>'s, the
  parameter \<open>frepr\<close>.
\<close>

definition hex_digit :: "nat \<Rightarrow> char" where
  "hex_digit d = (if d < 10 then char_of (48 + d) else char_of (87 + d))"

definition escape_char :: "char \<Rightarrow> string" where
  "escape_char c =
     (if c = CHR 0x22 then [CHR 0x5C, CHR 0x22]
      else if c = CHR 0x5C then [CHR 0x5C, CHR 0x5C]
      else if c = CHR 0x0A then [CHR 0x5C, CHR ''n'']
      else if c = CHR 0x0D then [CHR 0x5C, CHR ''r'']
      else if c = CHR 0x09 then [CHR 0x5C, CHR ''t'']
      else if c = CHR 0x08 then [CHR 0x5C, CHR ''b'']
      else if c = CHR 0x0C then [CHR 0x5C, CHR ''f'']
      else if (of_char c :: nat) < 32
        then [CHR 0x5C, CHR ''u'', CHR ''0'', CHR ''0'',
              hex_digit ((of_char c :: nat) div 16), hex_digit ((of_char c :: nat) mod 16)]
      else [c])"

definition dumps_str :: "string \<Rightarrow> string" where
  "dumps_str s = [CHR 0x22] @ concat (map escape_char s) @ [CHR 0x22]"

fun py_join :: "string \<Rightarrow> string list \<Rightarrow> string" where
  "py_join sep [] = []"
| "py_join sep [x] = x"
| "py_join sep (x # y # ys) = x @ sep @ py_join sep (y # ys)"

fun dumps_float :: "(rat \<Rightarrow> string) \<Rightarrow> pyfloat \<Rightarrow> string" where
  "dumps_float frepr (Finite r) = frepr r"
| "dumps_float frepr PosInf = ''Infinity''"
| "dumps_float frepr NegInf = ''-Infinity''"
| "dumps_float frepr NaN = ''NaN''"

fun dumps :: "(rat \<Rightarrow> string) \<Rightarrow> json \<Rightarrow> string" where
  "dumps frepr JNull = ''null''"
| "dumps frepr (JBool b) = (if b then ''true'' else ''false'')"
| "dumps frepr (JInt i) = str_int i"
| "dumps frepr (JFloat f) = dumps_float frepr f"
| "dumps frepr (JStr s) = dumps_str s"
| "dumps frepr (JArr xs) = ''['' @ py_join '','' (map (dumps frepr) xs) @ '']''"
| "dumps frepr (JObj d) =
     ''{'' @ py_join '','' (map (\<lambda>kv. dumps_str (fst kv) @ '':'' @ dumps frepr (snd kv)) d) @ ''}''"

subsection \<open>\<^verbatim>\<open>_truncate_events_for_attributes\<close>\<close>

definition MAX_STATE_ATTR_BYTES :: int where
  "MAX_STATE_ATTR_BYTES = 16000"

text \<open>\<^verbatim>\<open>_size\<close>: \<^verbatim>\<open>len\<close> counts the characters of the encoded text.\<close>

definition size_of :: "(rat \<Rightarrow> string) \<Rightarrow> dict list \<Rightarrow> int" where
  "size_of frepr candidate = int (length (dumps frepr (JArr (map JObj candidate))))"

text \<open>The slice \<^verbatim>\<open>events[:k]\<close>: a negative bound counts from the end.\<close>

definition slice_to :: "'a list \<Rightarrow> int \<Rightarrow> 'a list" where
  "slice_to xs k = (if 0 \<le> k then take (nat k) xs else take (nat (int (length xs) + k)) xs)"

text \<open>The \<^verbatim>\<open>while low <= high\<close> loop; it returns \<^verbatim>\<open>best\<close>.\<close>

function search :: "(rat \<Rightarrow> string) \<Rightarrow> dict list \<Rightarrow> int \<Rightarrow> int \<Rightarrow> int \<Rightarrow> int" where
  "search frepr events low high best =
     (if low \<le> high then
        (let mid = (low + high) div 2
         in if size_of frepr (slice_to events mid) \<le> MAX_STATE_ATTR_BYTES
            then search frepr events (mid + 1) high mid
            else search frepr events low (mid - 1) best)
      else best)"
  by pat_completeness auto
termination
  by (relation "measure (\<lambda>(frepr, events, low, high, best). nat (high + 1 - low))") auto

declare search.simps [simp del]

definition truncate_events_for_attributes :: "(rat \<Rightarrow> string) \<Rightarrow> dict list \<Rightarrow> dict list \<times> bool" where
  "truncate_events_for_attributes frepr events =
     (if events = [] then (events, False)
      else if size_of frepr events \<le> MAX_STATE_ATTR_BYTES then (events, False)
      else (slice_to events (search frepr events 1 (int (length events)) 1), True))"

section \<open>Notions used in the properties\<close>

subsection \<open>For event extraction\<close>

text \<open>
  The extraction rule in the specification's words: an array payload is used as it is;
  in an object, the first of the six candidate keys whose value is an array gives the
  array; otherwise the first value, in the object's order, that is an array with an object
  among its elements; otherwise nothing. Of the chosen array only the objects are kept.
\<close>

fun elements :: "json \<Rightarrow> json list" where
  "elements (JArr xs) = xs"
| "elements v = []"

fun entries :: "json \<Rightarrow> dict" where
  "entries (JObj d) = d"
| "entries v = []"

definition candidate_keys :: "string list" where
  "candidate_keys = [''events'', ''eventdata'', ''data'', ''items'', ''rows'', ''log'']"

definition extract_events_spec :: "json \<Rightarrow> json list" where
  "extract_events_spec payload =
     (if is_list payload then filter is_dict (elements payload)
      else if is_dict payload then
        (case find (\<lambda>key. is_list (py_get (entries payload) key)) candidate_keys of
           Some key \<Rightarrow> filter is_dict (elements (py_get (entries payload) key))
         | None \<Rightarrow>
             (case find (\<lambda>value. is_list value \<and> list_ex is_dict (elements value))
                     (map snd (entries payload)) of
                Some value \<Rightarrow> filter is_dict (elements value)
              | None \<Rightarrow> []))
      else [])"

subsection \<open>For the response classification\<close>

text \<open>
  The values of the status field that Python's \<^verbatim>\<open>==\<close> identifies with \<^verbatim>\<open>None\<close>, 0 or
  "0", and with 401, 403, "401" or "403"; and the text of the message.
\<close>

definition zero_statuses :: "json set" where
  "zero_statuses = {JNull, JInt 0, JStr ''0'', JBool False, JFloat (Finite 0)}"

definition auth_statuses :: "json set" where
  "auth_statuses =
     {JInt 401, JInt 403, JStr ''401'', JStr ''403'', JFloat (Finite 401), JFloat (Finite 403)}"

definition message_text :: "(json \<Rightarrow> string) \<Rightarrow> dict \<Rightarrow> string" where
  "message_text rp d = py_str rp (py_get_default d ''message'' (JStr ''Request failed''))"

subsection \<open>For login\<close>

text \<open>
  A formatter for the values that are not strings and a transport that answers every
  request with one payload, for the concrete runs below.
\<close>

definition no_repr :: "json \<Rightarrow> string" where
  "no_repr v = []"

definition answer_with :: "json \<Rightarrow> request \<Rightarrow> unit \<Rightarrow> response \<times> unit" where
  "answer_with payload req w = (Body payload, w)"

subsection \<open>For the token guard\<close>

text \<open>
  The logins of lines 62 to 65: one when no token is cached, none otherwise. The other
  definitions are a login that always succeeds and fetchers that fail in the ways the
  properties below distinguish; their world is \<open>unit\<close>.
\<close>

definition first_logins :: "'w guard \<Rightarrow> nat" where
  "first_logins s = (if cached_token s = None then 1 else 0)"

definition login_ok :: "unit \<Rightarrow> (error + LoginResult) \<times> unit" where
  "login_ok w = (Inr \<lparr> token = ''new'', credentials = JNull, master = JNull \<rparr>, w)"

definition fetch_rejected :: "string \<Rightarrow> unit \<Rightarrow> (error + json) \<times> unit" where
  "fetch_rejected t w = (Inl (StokerCloudAuthError ''Token rejected''), w)"

definition fetch_new_only :: "string \<Rightarrow> unit \<Rightarrow> (error + json) \<times> unit" where
  "fetch_new_only t w =
     (if t = ''new'' then Inr (JObj []) else Inl (StokerCloudAuthError ''Token rejected''), w)"

definition fetch_new_broken :: "string \<Rightarrow> unit \<Rightarrow> (error + json) \<times> unit" where
  "fetch_new_broken t w =
     (if t = ''new'' then Inl (StokerCloudError ''boom'')
      else Inl (StokerCloudAuthError ''Token rejected''), w)"

definition fetch_broken :: "string \<Rightarrow> unit \<Rightarrow> (error + json) \<times> unit" where
  "fetch_broken t w = (Inl (StokerCloudError ''boom''), w)"

subsection \<open>For the truncation\<close>

text \<open>
  The number of bytes of the UTF-8 encoding of a text: one for a code point below 128, two
  for the other code points of the model (below 256). And a record whose value is 7000
  times the letter U+00E9.
\<close>

fun utf8_length :: "string \<Rightarrow> nat" where
  "utf8_length [] = 0"
| "utf8_length (c # cs) = (if (of_char c :: nat) < 128 then 1 else 2) + utf8_length cs"

definition accented_record :: dict where
  "accented_record = [(''k'', JStr (replicate 7000 (CHR 0xE9)))]"

subsection \<open>For the translation annotation\<close>

text \<open>
  A value the table translates, and a key that is the \<^verbatim>\<open>"<key>_translated"\<close> name of a
  translated field of the event.
\<close>

fun translates :: "(string \<times> string) list \<Rightarrow> json \<Rightarrow> bool" where
  "translates translations (JStr value) = (map_of translations value \<noteq> None)"
| "translates translations v = False"

definition is_target :: "(string \<times> string) list \<Rightarrow> dict \<Rightarrow> string \<Rightarrow> bool" where
  "is_target translations event key =
     list_ex (\<lambda>item. translates translations (snd item) \<and> key = fst item @ ''_translated'') event"

subsection \<open>For the event log refresh\<close>

text \<open>
  The request \<^verbatim>\<open>fetch_event_data\<close> sends for the coordinator, and the dictionary the
  coordinator publishes for a payload.
\<close>

definition event_request :: "string \<Rightarrow> string \<Rightarrow> string \<Rightarrow> request" where
  "event_request base path tok =
     \<lparr> http_method = ''get'', url = base @ ''/'' @ path,
       params = [(''count'', JInt DEFAULT_EVENT_COUNT), (''offset'', JInt DEFAULT_EVENT_OFFSET),
                 (''token'', JStr tok)] \<rparr>"

definition event_batch :: "(string \<times> string) list option \<Rightarrow> json \<Rightarrow> dict" where
  "event_batch tbl payload =
     [(''raw'', payload),
      (''events'', JArr (map JObj (apply_translations tbl (extract_events payload)))),
      (''count'', JInt DEFAULT_EVENT_COUNT),
      (''offset'', JInt DEFAULT_EVENT_OFFSET),
      (''translation_language'', JStr DEFAULT_TRANSLATION_LANGUAGE),
      (''translations_loaded'', JBool (tbl \<noteq> None))]"

text \<open>A payload with one event, and a guard that holds a token.\<close>

definition ignition_log :: json where
  "ignition_log = JObj [(''eventdata'', JArr [JObj [(''type'', JStr ''IGN'')], JStr ''skip''])]"

definition with_token :: "unit guard" where
  "with_token = \<lparr> cached_token = Some ''abc'', world = (), login_calls = 0, fetch_calls = 0 \<rparr>"

section \<open>Properties of event extraction\<close>

lemma dicts_of_filter: "map JObj (dicts_of xs) = filter is_dict xs"
  by (induction xs rule: dicts_of.induct) simp_all

lemma first_list_key_find:
  "first_list_key d ks =
     map_option (\<lambda>key. elements (py_get d key)) (find (\<lambda>key. is_list (py_get d key)) ks)"
proof (induction ks)
  case Nil
  show ?case by simp
next
  case (Cons k ks)
  then show ?case by (cases "py_get d k") simp_all
qed

lemma first_list_value_find:
  "first_list_value vs =
     map_option elements (find (\<lambda>value. is_list value \<and> list_ex is_dict (elements value)) vs)"
  by (induction vs rule: first_list_value.induct) simp_all

text \<open>
  C4. For every payload, \<open>extract_events\<close> returns the objects the specification's rule
  selects, in order; on the specification's example
  \<^verbatim>\<open>{"eventdata": [{"a":1}, "skip", {"b":2}]}\<close> it returns \<^verbatim>\<open>[{"a":1}, {"b":2}]\<close>.
\<close>

theorem extract_events_refines:
  "map JObj (extract_events payload) = extract_events_spec payload
   \<and> extract_events (JObj [(''eventdata'',
        JArr [JObj [(''a'', JInt 1)], JStr ''skip'', JObj [(''b'', JInt 2)]])])
     = [[(''a'', JInt 1)], [(''b'', JInt 2)]]"
proof
  show "map JObj (extract_events payload) = extract_events_spec payload"
  proof (cases payload)
    case (JArr xs)
    then show ?thesis by (simp add: extract_events_spec_def dicts_of_filter)
  next
    case (JObj d)
    then show ?thesis
      by (simp add: extract_events_spec_def dicts_of_filter first_list_key_find
          first_list_value_find candidate_keys_def split: option.splits)
  qed (simp_all add: extract_events_spec_def)
next
  show "extract_events (JObj [(''eventdata'',
        JArr [JObj [(''a'', JInt 1)], JStr ''skip'', JObj [(''b'', JInt 2)]])])
     = [[(''a'', JInt 1)], [(''b'', JInt 2)]]"
    by (simp add: py_get_def)
qed

section \<open>Properties of the response classification\<close>

lemma starts_with_iff: "starts_with s p \<longleftrightarrow> (\<exists>post. s = p @ post)"
  by (induction s p rule: starts_with.induct) auto

lemma str_contains_iff: "str_contains sub s \<longleftrightarrow> (\<exists>pre post. s = pre @ sub @ post)"
proof (induction s)
  case Nil
  show ?case by auto
next
  case (Cons c cs)
  show ?case
  proof
    assume "str_contains sub (c # cs)"
    then consider "starts_with (c # cs) sub" | "str_contains sub cs" by auto
    then show "\<exists>pre post. c # cs = pre @ sub @ post"
    proof cases
      case 1
      then obtain post where "c # cs = sub @ post" by (auto simp: starts_with_iff)
      then have "c # cs = [] @ sub @ post" by simp
      then show ?thesis by blast
    next
      case 2
      with Cons obtain pre post where "cs = pre @ sub @ post" by auto
      then have "c # cs = (c # pre) @ sub @ post" by simp
      then show ?thesis by blast
    qed
  next
    assume "\<exists>pre post. c # cs = pre @ sub @ post"
    then obtain pre post where e: "c # cs = pre @ sub @ post" by blast
    show "str_contains sub (c # cs)"
    proof (cases pre)
      case Nil
      with e have "starts_with (c # cs) sub" by (auto simp: starts_with_iff)
      then show ?thesis by simp
    next
      case (Cons p ps)
      with e have "cs = ps @ sub @ post" by simp
      with Cons.IH have "str_contains sub cs" by blast
      then show ?thesis by simp
    qed
  qed
qed

lemma status_ok_iff: "status_ok v \<longleftrightarrow> v \<in> zero_statuses"
proof (cases v)
  case (JFloat f)
  then show ?thesis by (cases f) (auto simp: status_ok_def zero_statuses_def)
qed (auto simp: status_ok_def zero_statuses_def)

lemma status_auth_iff: "status_auth v \<longleftrightarrow> v \<in> auth_statuses"
proof (cases v)
  case (JFloat f)
  then show ?thesis by (cases f) (auto simp: status_auth_def auth_statuses_def)
qed (auto simp: status_auth_def auth_statuses_def)

text \<open>
  C2. For every object payload the checks of \<^verbatim>\<open>_request_json\<close> do the following. When
  the status is absent, 0 or "0" (or another value Python's \<^verbatim>\<open>in (None, 0, "0")\<close>
  accepts: null, false, 0.0) the payload is returned. When it is 401, 403, "401" or "403"
  (or the float 401.0 or 403.0) the result is \<^verbatim>\<open>StokerCloudAuthError\<close>. For every other
  status the result is \<^verbatim>\<open>StokerCloudAuthError\<close> when the lowercased message text
  contains "token" and one of "expired", "invalid", "reject", and \<^verbatim>\<open>StokerCloudError\<close>
  otherwise; the error carries the message text.
\<close>

theorem request_json_checks_classifies:
  "request_json_checks rp (JObj d) =
     (case map_of d ''status'' of
        None \<Rightarrow> Inr (JObj d)
      | Some status \<Rightarrow>
          if status \<in> zero_statuses then Inr (JObj d)
          else if status \<in> auth_statuses then Inl (StokerCloudAuthError (message_text rp d))
          else if str_contains ''token'' (lower (message_text rp d)) \<and>
                  (str_contains ''expired'' (lower (message_text rp d)) \<or>
                   str_contains ''invalid'' (lower (message_text rp d)) \<or>
                   str_contains ''reject'' (lower (message_text rp d)))
            then Inl (StokerCloudAuthError (message_text rp d))
          else Inl (StokerCloudError (message_text rp d)))"
proof (cases "map_of d ''status''")
  case None
  then show ?thesis by (simp add: py_get_def status_ok_def)
next
  case (Some v)
  then have g: "py_get d ''status'' = v" by (simp add: py_get_def)
  show ?thesis
    by (auto simp: Some g status_ok_iff status_auth_iff message_text_def token_hint_def Let_def)
qed

section \<open>Properties of login\<close>

text \<open>
  C6 (defect of the code). The claim has \<^verbatim>\<open>login\<close> return the token when the status is
  zero and a token is present, and fail with \<^verbatim>\<open>StokerCloudAuthError\<close> otherwise. api.py
  reads \<^verbatim>\<open>LOGIN_PATH\<close> (line 41) and never imports it (lines 9 to 15): with the names
  the module binds, every call ends with \<^verbatim>\<open>NameError\<close> and sends no request, also for
  the response \<^verbatim>\<open>{"status": 0, "token": "abc"}\<close>.
\<close>

theorem login_raises_name_error:
  "login api_globals rp tr username w = (Inl (NameError ''LOGIN_PATH''), w)
   \<and> login api_globals no_repr
        (answer_with (JObj [(''status'', JInt 0), (''token'', JStr ''abc'')])) ''user'' ()
     = (Inl (NameError ''LOGIN_PATH''), ())"
  by (simp add: login_def global_name_def api_globals_def)

section \<open>Properties of the token guard\<close>

text \<open>
  A call that finds a cached token and whose attempt succeeds makes no login.
\<close>

lemma cached_token_no_login:
  assumes "cached_token s = Some t" and "fetcher t (world s) = (Inr v, w')"
  shows "fetch_with_auth_retry lg fetcher s =
           (Inr v, s\<lparr> world := w', fetch_calls := Suc (fetch_calls s) \<rparr>)"
  using assms
  by (simp add: fetch_with_auth_retry_def acquire_token_def call_fetcher_def)

lemma acquire_token_Inr:
  assumes "acquire_token lg s = (Inr t, s1)"
  shows "cached_token s1 = Some t \<and> login_calls s1 = login_calls s + first_logins s
         \<and> fetch_calls s1 = fetch_calls s"
  using assms
  by (auto simp: acquire_token_def call_login_def first_logins_def
      split: option.splits prod.splits sum.splits)

lemma retry_success:
  assumes a: "acquire_token lg s = (Inr t1, s1)"
    and f1: "fetcher t1 (world s1) = (Inl (StokerCloudAuthError m), w2)"
    and l: "lg w2 = (Inr r, w3)"
    and f2: "fetcher (token r) w3 = (Inr v, w4)"
  shows "fetch_with_auth_retry lg fetcher s =
     (Inr v, s1\<lparr> cached_token := Some (token r), world := w4,
                  login_calls := login_calls s + first_logins s + 1,
                  fetch_calls := fetch_calls s + 2 \<rparr>)"
  using acquire_token_Inr [OF a] f1 l f2
  by (simp add: fetch_with_auth_retry_def a call_fetcher_def call_login_def)

lemma retry_failure:
  assumes a: "acquire_token lg s = (Inr t1, s1)"
    and f1: "fetcher t1 (world s1) = (Inl (StokerCloudAuthError m), w2)"
    and l: "lg w2 = (Inr r, w3)"
    and f2: "fetcher (token r) w3 = (Inl e2, w4)"
  shows "fetch_with_auth_retry lg fetcher s =
     (Inl (auth_failed e2), s1\<lparr> cached_token := Some (token r), world := w4,
                  login_calls := login_calls s + first_logins s + 1,
                  fetch_calls := fetch_calls s + 2 \<rparr>)"
  using acquire_token_Inr [OF a] f1 l f2
  by (simp add: fetch_with_auth_retry_def a call_fetcher_def call_login_def)

lemma first_non_auth:
  assumes a: "acquire_token lg s = (Inr t1, s1)"
    and f1: "fetcher t1 (world s1) = (Inl e, w2)"
    and n: "\<not> is_StokerCloudAuthError e"
  shows "fetch_with_auth_retry lg fetcher s =
     (Inl e, s1\<lparr> world := w2, login_calls := login_calls s + first_logins s,
                  fetch_calls := fetch_calls s + 1 \<rparr>)"
  using acquire_token_Inr [OF a] f1 n
  by (simp add: fetch_with_auth_retry_def a call_fetcher_def)

text \<open>
  C1 (amended). Let the call have a token after lines 62 to 65 (cached, or from the first
  login). If the first attempt fails with \<^verbatim>\<open>StokerCloudAuthError\<close>, the forced login
  succeeds and the retry succeeds, the call succeeds after exactly two attempts and one
  login more than \<open>first_logins\<close>. If the retry fails with \<^verbatim>\<open>StokerCloudAuthError\<close>
  too, the caller receives \<^verbatim>\<open>ConfigEntryAuthFailed\<close> after exactly two attempts and the
  same number of logins: two when no token was cached, one when a token was cached. An
  error of the fetcher that is not a \<^verbatim>\<open>StokerCloudAuthError\<close> is returned as it is,
  with no further attempt and no further login.
\<close>

theorem fetch_with_auth_retry_counts:
  "(acquire_token lg s = (Inr t1, s1) \<and>
    fetcher t1 (world s1) = (Inl (StokerCloudAuthError m), w2) \<and>
    lg w2 = (Inr r, w3) \<and> fetcher (token r) w3 = (Inr v, w4)
    \<longrightarrow> fetch_with_auth_retry lg fetcher s =
          (Inr v, s1\<lparr> cached_token := Some (token r), world := w4,
                       login_calls := login_calls s + first_logins s + 1,
                       fetch_calls := fetch_calls s + 2 \<rparr>))
   \<and> (acquire_token lg s = (Inr t1, s1) \<and>
      fetcher t1 (world s1) = (Inl (StokerCloudAuthError m), w2) \<and>
      lg w2 = (Inr r, w3) \<and> fetcher (token r) w3 = (Inl (StokerCloudAuthError m2), w4)
      \<longrightarrow> fetch_with_auth_retry lg fetcher s =
            (Inl (ConfigEntryAuthFailed m2),
             s1\<lparr> cached_token := Some (token r), world := w4,
                  login_calls := login_calls s + first_logins s + 1,
                  fetch_calls := fetch_calls s + 2 \<rparr>))
   \<and> (acquire_token lg s = (Inr t1, s1) \<and>
      fetcher t1 (world s1) = (Inl e, w2) \<and> \<not> is_StokerCloudAuthError e
      \<longrightarrow> fetch_with_auth_retry lg fetcher s =
            (Inl e, s1\<lparr> world := w2, login_calls := login_calls s + first_logins s,
                         fetch_calls := fetch_calls s + 1 \<rparr>))
   \<and> (acquire_token lg s = (Inr t1, s1) \<and>
      fetcher t1 (world s1) = (Inl (StokerCloudAuthError m), w2) \<and>
      lg w2 = (Inr r, w3) \<and> fetcher (token r) w3 = (Inl e, w4) \<and> \<not> is_StokerCloudAuthError e
      \<longrightarrow> fetch_with_auth_retry lg fetcher s =
            (Inl e, s1\<lparr> cached_token := Some (token r), world := w4,
                         login_calls := login_calls s + first_logins s + 1,
                         fetch_calls := fetch_calls s + 2 \<rparr>))"
proof (intro conjI impI)
  assume h: "acquire_token lg s = (Inr t1, s1) \<and>
    fetcher t1 (world s1) = (Inl (StokerCloudAuthError m), w2) \<and>
    lg w2 = (Inr r, w3) \<and> fetcher (token r) w3 = (Inr v, w4)"
  with retry_success [of lg s t1 s1 fetcher m w2 r w3 v w4] show "fetch_with_auth_retry lg fetcher s =
          (Inr v, s1\<lparr> cached_token := Some (token r), world := w4,
                       login_calls := login_calls s + first_logins s + 1,
                       fetch_calls := fetch_calls s + 2 \<rparr>)"
    by simp
next
  assume h: "acquire_token lg s = (Inr t1, s1) \<and>
      fetcher t1 (world s1) = (Inl (StokerCloudAuthError m), w2) \<and>
      lg w2 = (Inr r, w3) \<and> fetcher (token r) w3 = (Inl (StokerCloudAuthError m2), w4)"
  have "auth_failed (StokerCloudAuthError m2) = ConfigEntryAuthFailed m2"
    by (simp add: auth_failed_def)
  with retry_failure [of lg s t1 s1 fetcher m w2 r w3 "StokerCloudAuthError m2" w4] h
  show "fetch_with_auth_retry lg fetcher s =
            (Inl (ConfigEntryAuthFailed m2),
             s1\<lparr> cached_token := Some (token r), world := w4,
                  login_calls := login_calls s + first_logins s + 1,
                  fetch_calls := fetch_calls s + 2 \<rparr>)"
    by simp
next
  assume h: "acquire_token lg s = (Inr t1, s1) \<and>
      fetcher t1 (world s1) = (Inl e, w2) \<and> \<not> is_StokerCloudAuthError e"
  with first_non_auth [of lg s t1 s1 fetcher e w2] show "fetch_with_auth_retry lg fetcher s =
            (Inl e, s1\<lparr> world := w2, login_calls := login_calls s + first_logins s,
                         fetch_calls := fetch_calls s + 1 \<rparr>)"
    by simp
next
  assume h: "acquire_token lg s = (Inr t1, s1) \<and>
      fetcher t1 (world s1) = (Inl (StokerCloudAuthError m), w2) \<and>
      lg w2 = (Inr r, w3) \<and> fetcher (token r) w3 = (Inl e, w4) \<and> \<not> is_StokerCloudAuthError e"
  then have "auth_failed e = e" by (simp add: auth_failed_def)
  with retry_failure [of lg s t1 s1 fetcher m w2 r w3 e w4] h
  show "fetch_with_auth_retry lg fetcher s =
            (Inl e, s1\<lparr> cached_token := Some (token r), world := w4,
                         login_calls := login_calls s + first_logins s + 1,
                         fetch_calls := fetch_calls s + 2 \<rparr>)"
    by simp
qed

text \<open>
  Each hypothesis holds on a concrete run: a cached token that is rejected once, no cached
  token and two rejections, a fetcher that fails with \<^verbatim>\<open>StokerCloudError\<close> on the first
  attempt, and one that does so on the retry.
\<close>

theorem fetch_with_auth_retry_counts_witness:
  "fetch_with_auth_retry login_ok fetch_new_only
     \<lparr> cached_token = None, world = (), login_calls = 0, fetch_calls = 0 \<rparr>
   = (Inr (JObj []), \<lparr> cached_token = Some ''new'', world = (), login_calls = 1, fetch_calls = 1 \<rparr>)
   \<and> fetch_with_auth_retry login_ok fetch_new_only
     \<lparr> cached_token = Some ''old'', world = (), login_calls = 0, fetch_calls = 0 \<rparr>
   = (Inr (JObj []), \<lparr> cached_token = Some ''new'', world = (), login_calls = 1, fetch_calls = 2 \<rparr>)
   \<and> fetch_with_auth_retry login_ok fetch_rejected
     \<lparr> cached_token = None, world = (), login_calls = 0, fetch_calls = 0 \<rparr>
   = (Inl (ConfigEntryAuthFailed ''Token rejected''),
      \<lparr> cached_token = Some ''new'', world = (), login_calls = 2, fetch_calls = 2 \<rparr>)
   \<and> fetch_with_auth_retry login_ok fetch_broken
     \<lparr> cached_token = Some ''old'', world = (), login_calls = 0, fetch_calls = 0 \<rparr>
   = (Inl (StokerCloudError ''boom''),
      \<lparr> cached_token = Some ''old'', world = (), login_calls = 0, fetch_calls = 1 \<rparr>)
   \<and> fetch_with_auth_retry login_ok fetch_new_broken
     \<lparr> cached_token = Some ''old'', world = (), login_calls = 0, fetch_calls = 0 \<rparr>
   = (Inl (StokerCloudError ''boom''),
      \<lparr> cached_token = Some ''new'', world = (), login_calls = 1, fetch_calls = 2 \<rparr>)"
proof (intro conjI)
  show "fetch_with_auth_retry login_ok fetch_new_only
     \<lparr> cached_token = None, world = (), login_calls = 0, fetch_calls = 0 \<rparr>
   = (Inr (JObj []), \<lparr> cached_token = Some ''new'', world = (), login_calls = 1, fetch_calls = 1 \<rparr>)"
    by (simp add: fetch_with_auth_retry_def acquire_token_def call_login_def call_fetcher_def
        login_ok_def fetch_new_only_def)
next
  show "fetch_with_auth_retry login_ok fetch_new_only
     \<lparr> cached_token = Some ''old'', world = (), login_calls = 0, fetch_calls = 0 \<rparr>
   = (Inr (JObj []), \<lparr> cached_token = Some ''new'', world = (), login_calls = 1, fetch_calls = 2 \<rparr>)"
    using fetch_with_auth_retry_counts
      [where lg = login_ok and fetcher = fetch_new_only
         and s = "\<lparr> cached_token = Some ''old'', world = (), login_calls = 0, fetch_calls = 0 \<rparr>"
         and ?t1.0 = "''old''"
         and ?s1.0 = "\<lparr> cached_token = Some ''old'', world = (), login_calls = 0, fetch_calls = 0 \<rparr>"
         and m = "''Token rejected''" and ?w2.0 = "()"
         and r = "\<lparr> token = ''new'', credentials = JNull, master = JNull \<rparr>"
         and ?w3.0 = "()" and v = "JObj []" and ?w4.0 = "()"]
    by (simp add: acquire_token_def login_ok_def fetch_new_only_def first_logins_def)
next
  show "fetch_with_auth_retry login_ok fetch_rejected
     \<lparr> cached_token = None, world = (), login_calls = 0, fetch_calls = 0 \<rparr>
   = (Inl (ConfigEntryAuthFailed ''Token rejected''),
      \<lparr> cached_token = Some ''new'', world = (), login_calls = 2, fetch_calls = 2 \<rparr>)"
    using fetch_with_auth_retry_counts
      [where lg = login_ok and fetcher = fetch_rejected
         and s = "\<lparr> cached_token = None, world = (), login_calls = 0, fetch_calls = 0 \<rparr>"
         and ?t1.0 = "''new''"
         and ?s1.0 = "\<lparr> cached_token = Some ''new'', world = (), login_calls = 1, fetch_calls = 0 \<rparr>"
         and m = "''Token rejected''" and ?w2.0 = "()"
         and r = "\<lparr> token = ''new'', credentials = JNull, master = JNull \<rparr>"
         and ?w3.0 = "()" and ?m2.0 = "''Token rejected''" and ?w4.0 = "()"]
    by (simp add: acquire_token_def call_login_def login_ok_def fetch_rejected_def first_logins_def)
next
  show "fetch_with_auth_retry login_ok fetch_broken
     \<lparr> cached_token = Some ''old'', world = (), login_calls = 0, fetch_calls = 0 \<rparr>
   = (Inl (StokerCloudError ''boom''),
      \<lparr> cached_token = Some ''old'', world = (), login_calls = 0, fetch_calls = 1 \<rparr>)"
    using fetch_with_auth_retry_counts
      [where lg = login_ok and fetcher = fetch_broken
         and s = "\<lparr> cached_token = Some ''old'', world = (), login_calls = 0, fetch_calls = 0 \<rparr>"
         and ?t1.0 = "''old''"
         and ?s1.0 = "\<lparr> cached_token = Some ''old'', world = (), login_calls = 0, fetch_calls = 0 \<rparr>"
         and e = "StokerCloudError ''boom''" and ?w2.0 = "()"]
    by (simp add: acquire_token_def fetch_broken_def first_logins_def)
next
  show "fetch_with_auth_retry login_ok fetch_new_broken
     \<lparr> cached_token = Some ''old'', world = (), login_calls = 0, fetch_calls = 0 \<rparr>
   = (Inl (StokerCloudError ''boom''),
      \<lparr> cached_token = Some ''new'', world = (), login_calls = 1, fetch_calls = 2 \<rparr>)"
    using fetch_with_auth_retry_counts
      [where lg = login_ok and fetcher = fetch_new_broken
         and s = "\<lparr> cached_token = Some ''old'', world = (), login_calls = 0, fetch_calls = 0 \<rparr>"
         and ?t1.0 = "''old''"
         and ?s1.0 = "\<lparr> cached_token = Some ''old'', world = (), login_calls = 0, fetch_calls = 0 \<rparr>"
         and m = "''Token rejected''" and ?w2.0 = "()"
         and r = "\<lparr> token = ''new'', credentials = JNull, master = JNull \<rparr>"
         and ?w3.0 = "()" and e = "StokerCloudError ''boom''" and ?w4.0 = "()"]
    by (simp add: acquire_token_def login_ok_def fetch_new_broken_def first_logins_def)
qed

text \<open>
  The claim as stated fails when a token is cached at the call: both attempts fail with
  \<^verbatim>\<open>StokerCloudAuthError\<close> and one login is made, not two.
\<close>

theorem cached_token_one_login_counterexample:
  "fetch_with_auth_retry login_ok fetch_rejected
     \<lparr> cached_token = Some ''old'', world = (), login_calls = 0, fetch_calls = 0 \<rparr>
   = (Inl (ConfigEntryAuthFailed ''Token rejected''),
      \<lparr> cached_token = Some ''new'', world = (), login_calls = 1, fetch_calls = 2 \<rparr>)"
  by (simp add: fetch_with_auth_retry_def acquire_token_def call_login_def call_fetcher_def
      login_ok_def fetch_rejected_def auth_failed_def)

section \<open>Properties of the truncation\<close>

lemma length_py_join:
  "length (py_join sep xs) = sum_list (map length xs) + length sep * (length xs - 1)"
  by (induction sep xs rule: py_join.induct) simp_all

lemma size_of_eq:
  "size_of frepr xs =
     int (2 + sum_list (map (\<lambda>d. length (dumps frepr (JObj d))) xs) + (length xs - 1))"
  by (simp add: size_of_def length_py_join comp_def del: dumps.simps(7))

lemma slice_to_nonneg: "0 \<le> k \<Longrightarrow> slice_to xs k = take (nat k) xs"
  by (simp add: slice_to_def)

lemma search_ge_1:
  "1 \<le> low \<Longrightarrow> 1 \<le> best \<Longrightarrow> 1 \<le> search frepr events low high best"
proof (induction frepr events low high best rule: search.induct)
  case (1 frepr events low high best)
  show ?case
  proof (cases "low \<le> high")
    case False
    then show ?thesis using "1.prems" by (subst search.simps) simp
  next
    case True
    define mid where "mid = (low + high) div 2"
    from True "1.prems" have m: "1 \<le> mid" "low \<le> mid" unfolding mid_def by auto
    show ?thesis
    proof (cases "size_of frepr (slice_to events mid) \<le> MAX_STATE_ATTR_BYTES")
      case t: True
      have "1 \<le> search frepr events (mid + 1) high mid"
        using "1.IH"(1) [OF True mid_def t] m by simp
      then show ?thesis using True t
        by (subst search.simps) (simp add: mid_def Let_def)
    next
      case f: False
      have "1 \<le> search frepr events low (mid - 1) best"
        using "1.IH"(2) [OF True mid_def f] "1.prems" by simp
      then show ?thesis using True f
        by (subst search.simps) (simp add: mid_def Let_def)
    qed
  qed
qed

lemma search_best_or_within:
  "1 \<le> low \<Longrightarrow>
   search frepr events low high best = best \<or>
   size_of frepr (take (nat (search frepr events low high best)) events) \<le> MAX_STATE_ATTR_BYTES"
proof (induction frepr events low high best rule: search.induct)
  case (1 frepr events low high best)
  show ?case
  proof (cases "low \<le> high")
    case False
    then show ?thesis by (subst (1 2) search.simps) simp
  next
    case True
    define mid where "mid = (low + high) div 2"
    from True "1.prems" have m: "1 \<le> mid" "low \<le> mid" unfolding mid_def by auto
    show ?thesis
    proof (cases "size_of frepr (slice_to events mid) \<le> MAX_STATE_ATTR_BYTES")
      case t: True
      have s: "search frepr events low high best = search frepr events (mid + 1) high mid"
        using True t by (subst search.simps) (simp add: mid_def Let_def)
      have fm: "size_of frepr (take (nat mid) events) \<le> MAX_STATE_ATTR_BYTES"
        using t m by (simp add: slice_to_nonneg)
      from "1.IH"(1) [OF True mid_def t] m
      have "search frepr events (mid + 1) high mid = mid \<or>
            size_of frepr (take (nat (search frepr events (mid + 1) high mid)) events)
              \<le> MAX_STATE_ATTR_BYTES" by simp
      then show ?thesis using fm unfolding s by auto
    next
      case f: False
      have s: "search frepr events low high best = search frepr events low (mid - 1) best"
        using True f by (subst search.simps) (simp add: mid_def Let_def)
      from "1.IH"(2) [OF True mid_def f] "1.prems"
      show ?thesis unfolding s by simp
    qed
  qed
qed

lemma truncate_fitting:
  assumes "size_of frepr events \<le> MAX_STATE_ATTR_BYTES"
  shows "truncate_events_for_attributes frepr events = (events, False)"
  using assms by (simp add: truncate_events_for_attributes_def)

lemma truncate_searching:
  assumes "events \<noteq> []" and "\<not> size_of frepr events \<le> MAX_STATE_ATTR_BYTES"
  shows "truncate_events_for_attributes frepr events =
           (take (nat (search frepr events 1 (int (length events)) 1)) events, True)"
proof -
  have "1 \<le> search frepr events 1 (int (length events)) 1"
    by (rule search_ge_1) simp_all
  then show ?thesis using assms
    by (simp add: truncate_events_for_attributes_def slice_to_nonneg)
qed

text \<open>
  C8. Truncating the list that a truncation returned gives that list again.
\<close>

theorem truncate_events_idempotent:
  "fst (truncate_events_for_attributes frepr (fst (truncate_events_for_attributes frepr events)))
   = fst (truncate_events_for_attributes frepr events)"
proof (cases "events = []")
  case True
  then show ?thesis by (simp add: truncate_events_for_attributes_def)
next
  case ne: False
  show ?thesis
  proof (cases "size_of frepr events \<le> MAX_STATE_ATTR_BYTES")
    case True
    then show ?thesis by (simp add: truncate_fitting)
  next
    case False
    define b where "b = search frepr events 1 (int (length events)) 1"
    define out where "out = take (nat b) events"
    have t: "truncate_events_for_attributes frepr events = (out, True)"
      unfolding b_def out_def by (rule truncate_searching [OF ne False])
    have b1: "1 \<le> b" unfolding b_def by (rule search_ge_1) simp_all
    have "b = 1 \<or> size_of frepr (take (nat b) events) \<le> MAX_STATE_ATTR_BYTES"
      unfolding b_def by (rule search_best_or_within) simp
    then show ?thesis
    proof
      assume "size_of frepr (take (nat b) events) \<le> MAX_STATE_ATTR_BYTES"
      then have "size_of frepr out \<le> MAX_STATE_ATTR_BYTES" by (simp add: out_def)
      then show ?thesis by (simp add: t truncate_fitting)
    next
      assume b: "b = 1"
      from ne obtain x xs where e: "events = x # xs" by (cases events) auto
      have o: "out = [x]" by (simp add: out_def b e)
      show ?thesis
      proof (cases "size_of frepr [x] \<le> MAX_STATE_ATTR_BYTES")
        case True
        then show ?thesis by (simp add: t o truncate_fitting)
      next
        case f: False
        have "search frepr [x] 1 1 1 = search frepr [x] 1 0 1"
          using f by (subst search.simps) (simp add: slice_to_def)
        also have "\<dots> = 1" by (subst search.simps) simp
        finally have "search frepr [x] 1 (int (length [x])) 1 = 1" by simp
        then have "truncate_events_for_attributes frepr [x] = ([x], True)"
          using truncate_searching [of "[x]" frepr] f by simp
        then show ?thesis by (simp add: t o)
      qed
    qed
  qed
qed

text \<open>
  C10. The empty list is returned as it is, with the flag false; the search is not entered.
\<close>

theorem truncate_events_empty: "truncate_events_for_attributes frepr [] = ([], False)"
  by (simp add: truncate_events_for_attributes_def)

lemma utf8_length_append: "utf8_length (xs @ ys) = utf8_length xs + utf8_length ys"
  by (induction xs) simp_all

lemma concat_escape_accented:
  "concat (replicate n (escape_char (CHR 0xE9))) = replicate n (CHR 0xE9)"
  by (induction n) (simp_all add: escape_char_def)

lemma utf8_length_accented: "utf8_length (replicate n (CHR 0xE9)) = 2 * n"
  by (induction n) simp_all

lemma escape_k: "escape_char CHR ''k'' = [CHR ''k'']"
  by (simp add: escape_char_def)

lemma dumps_accented_record:
  "dumps frepr (JObj accented_record)
   = ''{'' @ [CHR 0x22] @ ''k'' @ [CHR 0x22] @ '':'' @ [CHR 0x22]
     @ replicate 7000 (CHR 0xE9) @ [CHR 0x22] @ ''}''"
  by (simp add: accented_record_def dumps_str_def concat_escape_accented escape_k)

lemma length_accented: "length (dumps frepr (JObj accented_record)) = 7008"
  by (simp add: dumps_accented_record del: dumps.simps)

lemma bytes_accented: "utf8_length (dumps frepr (JObj accented_record)) = 14008"
  by (simp add: dumps_accented_record utf8_length_append utf8_length_accented del: dumps.simps)

text \<open>
  C3 (defect of the code). The claim bounds the encoding of the returned prefix by a budget
  of 16000 bytes, and the constant is named \<^verbatim>\<open>_MAX_STATE_ATTR_BYTES\<close>; \<^verbatim>\<open>_size\<close>
  is \<^verbatim>\<open>len\<close> of the encoded text, the number of its characters. Two records of 7000
  times U+00E9 encode to 14019 characters and 28019 bytes: they are returned whole with
  the flag false, where the longest prefix within 16000 bytes is the first record alone
  (14010 bytes).
\<close>

theorem truncate_counts_characters:
  "truncate_events_for_attributes frepr [accented_record, accented_record]
     = ([accented_record, accented_record], False)
   \<and> length (dumps frepr (JArr (map JObj [accented_record, accented_record]))) = 14019
   \<and> utf8_length (dumps frepr (JArr (map JObj [accented_record, accented_record]))) = 28019
   \<and> utf8_length (dumps frepr (JArr (map JObj [accented_record]))) = 14010"
proof (intro conjI)
  have "size_of frepr [accented_record, accented_record] = 14019"
    by (simp add: size_of_eq length_accented del: dumps.simps)
  then show "truncate_events_for_attributes frepr [accented_record, accented_record]
     = ([accented_record, accented_record], False)"
    by (simp add: truncate_fitting MAX_STATE_ATTR_BYTES_def)
  show "length (dumps frepr (JArr (map JObj [accented_record, accented_record]))) = 14019"
    by (simp add: length_accented del: dumps.simps(7))
  show "utf8_length (dumps frepr (JArr (map JObj [accented_record, accented_record]))) = 28019"
    by (simp add: utf8_length_append bytes_accented del: dumps.simps(7))
  show "utf8_length (dumps frepr (JArr (map JObj [accented_record]))) = 14010"
    by (simp add: utf8_length_append bytes_accented del: dumps.simps(7))
qed

section \<open>Properties of the translation annotation\<close>

lemma map_of_dict_set: "map_of (dict_set k v d) = (map_of d)(k \<mapsto> v)"
  by (simp add: dict_set_def update_conv')

lemma translate_items_other:
  "\<not> is_target tbl items key \<Longrightarrow>
   map_of (translate_items tbl items out) key = map_of out key"
proof (induction tbl items out rule: translate_items.induct)
  case (2 tbl k vl items out)
  then show ?case
    by (cases "map_of tbl vl") (auto simp: is_target_def map_of_dict_set)
qed (simp_all add: is_target_def)

lemma is_target_keys:
  "is_target tbl items (k @ ''_translated'') \<Longrightarrow> k \<in> fst ` set items"
  by (auto simp: is_target_def list_ex_iff)

lemma translate_items_target:
  "distinct (map fst items) \<Longrightarrow> (k, JStr s) \<in> set items \<Longrightarrow> map_of tbl s = Some t \<Longrightarrow>
   map_of (translate_items tbl items out) (k @ ''_translated'') = Some (JStr t)"
proof (induction tbl items out rule: translate_items.induct)
  case (2 tbl key vl items out)
  show ?case
  proof (cases "(k, JStr s) = (key, JStr vl)")
    case True
    with "2.prems" have "k \<notin> fst ` set items" by auto
    then have "\<not> is_target tbl items (k @ ''_translated'')"
      using is_target_keys by blast
    then show ?thesis using True "2.prems"(3)
      by (simp add: translate_items_other map_of_dict_set)
  next
    case False
    with "2.prems" have "(k, JStr s) \<in> set items" "distinct (map fst items)" by auto
    then show ?thesis using "2.IH" "2.prems"(3) by simp
  qed
qed auto

lemma translate_items_none:
  "\<not> list_ex (\<lambda>item. translates tbl (snd item)) items \<Longrightarrow>
   translate_items tbl items out = out"
proof (induction tbl items out rule: translate_items.induct)
  case (2 tbl k vl items out)
  then show ?case by (cases "map_of tbl vl") auto
qed simp_all

lemma translate_items_keys:
  "map_of (translate_items tbl items out) key \<noteq> None \<Longrightarrow>
   map_of out key \<noteq> None \<or> is_target tbl items key"
  using translate_items_other by fastforce

lemma translate_event_empty_table: "translate_event [] event = event"
  unfolding translate_event_def by (rule translate_items_none) (simp add: list_ex_iff, metis translates.elims(2) map_of.simps(1))

lemma apply_translations_Some:
  "apply_translations (Some tbl) events = map (translate_event tbl) events"
proof (cases tbl)
  case Nil
  have "map (translate_event []) events = events"
    by (induction events) (simp_all add: translate_event_empty_table)
  with Nil show ?thesis by simp
next
  case (Cons p ps)
  then show ?thesis by simp
qed

text \<open>
  C5 (amended). With no table or an empty one the events are returned as they are;
  otherwise each event is replaced by its annotated copy. For an event (a dictionary, so
  with distinct keys) the copy keeps every original pair whose key is not the
  \<^verbatim>\<open>"<key>_translated"\<close> name of a translated field, holds for every key whose value is a
  string the table translates the entry \<^verbatim>\<open>"<key>_translated"\<close> with the table's value,
  has no other key, and is the event itself when no field is translated.
\<close>

theorem apply_translations_annotates:
  assumes "distinct (map fst event)"
  shows "apply_translations None events = events
    \<and> apply_translations (Some []) events = events
    \<and> apply_translations (Some tbl) events = map (translate_event tbl) events
    \<and> (\<forall>k v. map_of event k = Some v \<and> \<not> is_target tbl event k
          \<longrightarrow> map_of (translate_event tbl event) k = Some v)
    \<and> (\<forall>k s t. map_of event k = Some (JStr s) \<and> map_of tbl s = Some t
          \<longrightarrow> map_of (translate_event tbl event) (k @ ''_translated'') = Some (JStr t))
    \<and> (\<forall>k. map_of (translate_event tbl event) k \<noteq> None
          \<longrightarrow> map_of event k \<noteq> None \<or> is_target tbl event k)
    \<and> (\<not> list_ex (\<lambda>item. translates tbl (snd item)) event
          \<longrightarrow> translate_event tbl event = event)"
proof (intro conjI allI impI)
  show "apply_translations None events = events" by simp
  show "apply_translations (Some []) events = events" by simp
  show "apply_translations (Some tbl) events = map (translate_event tbl) events"
    by (rule apply_translations_Some)
next
  fix k v assume "map_of event k = Some v \<and> \<not> is_target tbl event k"
  then show "map_of (translate_event tbl event) k = Some v"
    by (simp add: translate_event_def translate_items_other)
next
  fix k s t assume h: "map_of event k = Some (JStr s) \<and> map_of tbl s = Some t"
  then have "(k, JStr s) \<in> set event" by (simp add: map_of_SomeD)
  with assms h show "map_of (translate_event tbl event) (k @ ''_translated'') = Some (JStr t)"
    by (simp add: translate_event_def translate_items_target)
next
  fix k assume "map_of (translate_event tbl event) k \<noteq> None"
  then show "map_of event k \<noteq> None \<or> is_target tbl event k"
    unfolding translate_event_def by (rule translate_items_keys)
next
  assume "\<not> list_ex (\<lambda>item. translates tbl (snd item)) event"
  then show "translate_event tbl event = event"
    unfolding translate_event_def by (rule translate_items_none)
qed

text \<open>
  On \<^verbatim>\<open>{"type": "IGN", "n": 1}\<close> with the table \<^verbatim>\<open>{"IGN": "Ignition"}\<close> the field is
  kept and its translation added; \<^verbatim>\<open>{"type": "OFF", "n": 1}\<close> is unchanged.
\<close>

theorem apply_translations_annotates_witness:
  "map_of (translate_event [(''IGN'', ''Ignition'')] [(''type'', JStr ''IGN''), (''n'', JInt 1)]) ''type''
     = Some (JStr ''IGN'')
   \<and> map_of (translate_event [(''IGN'', ''Ignition'')] [(''type'', JStr ''IGN''), (''n'', JInt 1)])
       ''type_translated'' = Some (JStr ''Ignition'')
   \<and> translate_event [(''IGN'', ''Ignition'')] [(''type'', JStr ''OFF''), (''n'', JInt 1)]
     = [(''type'', JStr ''OFF''), (''n'', JInt 1)]"
proof -
  have d1: "distinct (map fst [(''type'', JStr ''IGN''), (''n'', JInt 1)])" by simp
  have d2: "distinct (map fst [(''type'', JStr ''OFF''), (''n'', JInt 1)])" by simp
  note A = apply_translations_annotates [OF d1, of "[]" "[(''IGN'', ''Ignition'')]"]
  note B = apply_translations_annotates [OF d2, of "[]" "[(''IGN'', ''Ignition'')]"]
  have a: "map_of [(''type'', JStr ''IGN''), (''n'', JInt 1)] ''type'' = Some (JStr ''IGN'')
           \<and> \<not> is_target [(''IGN'', ''Ignition'')] [(''type'', JStr ''IGN''), (''n'', JInt 1)] ''type''"
    by (simp add: is_target_def)
  have b: "map_of [(''type'', JStr ''IGN''), (''n'', JInt 1)] ''type'' = Some (JStr ''IGN'')
           \<and> map_of [(''IGN'', ''Ignition'')] ''IGN'' = Some ''Ignition''"
    by simp
  have c: "\<not> list_ex (\<lambda>item. translates [(''IGN'', ''Ignition'')] (snd item))
              [(''type'', JStr ''OFF''), (''n'', JInt 1)]"
    by simp
  from A a have 1: "map_of (translate_event [(''IGN'', ''Ignition'')]
      [(''type'', JStr ''IGN''), (''n'', JInt 1)]) ''type'' = Some (JStr ''IGN'')" by blast
  from A b have 2: "map_of (translate_event [(''IGN'', ''Ignition'')]
      [(''type'', JStr ''IGN''), (''n'', JInt 1)]) (''type'' @ ''_translated'') = Some (JStr ''Ignition'')"
    by blast
  from B c have 3: "translate_event [(''IGN'', ''Ignition'')] [(''type'', JStr ''OFF''), (''n'', JInt 1)]
     = [(''type'', JStr ''OFF''), (''n'', JInt 1)]" by blast
  from 1 2 3 show ?thesis by simp
qed

text \<open>
  The claim as stated fails for \<^verbatim>\<open>{"a": "IGN", "a_translated": "orig"}\<close>: the original
  pair under \<^verbatim>\<open>"a_translated"\<close> is overwritten by the translation of \<^verbatim>\<open>"a"\<close>.
\<close>

theorem translated_key_overwritten_counterexample:
  "apply_translations (Some [(''IGN'', ''Ignition'')])
     [[(''a'', JStr ''IGN''), (''a_translated'', JStr ''orig'')]]
   = [[(''a'', JStr ''IGN''), (''a_translated'', JStr ''Ignition'')]]"
  by (simp add: translate_event_def dict_set_def)

text \<open>The specification's example.\<close>

lemma apply_translations_spec_example:
  "apply_translations (Some [(''IGN'', ''Ignition'')]) [[(''type'', JStr ''IGN'')]]
   = [[(''type'', JStr ''IGN''), (''type_translated'', JStr ''Ignition'')]]"
  by (simp add: translate_event_def dict_set_def)

section \<open>Properties of the event log refresh\<close>

lemma dicts_of_map_JObj: "dicts_of (map JObj ds) = ds"
  by (induction ds) simp_all

lemma guard_success:
  assumes "fetch_with_auth_retry lg fetcher s = (Inr v, s')"
  shows "\<exists>t w w'. fetcher t w = (Inr v, w')"
proof -
  have cf: "\<And>t s1 r s2. call_fetcher fetcher t s1 = (Inr r, s2)
              \<Longrightarrow> \<exists>w'. fetcher t (world s1) = (Inr r, w')"
    by (auto simp: call_fetcher_def split: prod.splits)
  from assms show ?thesis
    unfolding fetch_with_auth_retry_def
    by (auto split: prod.splits sum.splits if_splits dest!: cf)
qed

lemma request_json_checks_Inr: "request_json_checks rp p = Inr q \<Longrightarrow> q = p"
  by (cases p) (auto simp: Let_def split: if_splits)

lemma fetch_event_data_success:
  assumes "fetch_event_data g rp tr tok DEFAULT_EVENT_COUNT DEFAULT_EVENT_OFFSET w = (Inr d, w')"
  shows "\<exists>base path payload.
           map_of g ''API_BASE'' = Some base \<and> map_of g ''EVENT_DATA_PATH'' = Some path \<and>
           tr (event_request base path tok) w = (Body payload, w') \<and>
           d = [(''raw'', payload), (''events'', JArr (map JObj (extract_events payload)))]"
  using assms
  unfolding fetch_event_data_def global_name_def request_json_def event_request_def
  by (auto split: option.splits prod.splits sum.splits response.splits
      dest!: request_json_checks_Inr)

lemma stamp_fetched:
  "stamp_event_data tbl [(''raw'', payload), (''events'', JArr (map JObj evs))]
   = [(''raw'', payload), (''events'', JArr (map JObj (apply_translations tbl evs))),
      (''count'', JInt DEFAULT_EVENT_COUNT), (''offset'', JInt DEFAULT_EVENT_OFFSET),
      (''translation_language'', JStr DEFAULT_TRANSLATION_LANGUAGE),
      (''translations_loaded'', JBool (tbl \<noteq> None))]"
  by (simp add: stamp_event_data_def py_get_def dict_set_def dicts_of_map_JObj)

text \<open>
  C7 (amended). When a refresh of the event log succeeds, the transport was asked for the
  event data with count 100 and offset 0 and answered with a payload, and the published
  dictionary holds that payload under \<^verbatim>\<open>raw\<close>, the extracted and annotated events, the
  count and the offset of the request, the language \<^verbatim>\<open>uk\<close>, and
  \<^verbatim>\<open>translations_loaded\<close>, which is true exactly when \<^verbatim>\<open>translations\<close> is not
  \<^verbatim>\<open>None\<close>.
\<close>

theorem async_update_event_data_stamps:
  assumes "async_update_event_data g rp tr username tbl s = (Inr data, s')"
  shows "\<exists>base path tok w w' payload.
           map_of g ''API_BASE'' = Some base \<and> map_of g ''EVENT_DATA_PATH'' = Some path \<and>
           tr (event_request base path tok) w = (Body payload, w') \<and>
           data = event_batch tbl payload"
proof -
  from assms obtain d where
    f: "fetch_with_auth_retry (login g rp tr username)
          (\<lambda>t. fetch_event_data g rp tr t DEFAULT_EVENT_COUNT DEFAULT_EVENT_OFFSET) s = (Inr d, s')"
    and dd: "data = stamp_event_data tbl d"
    unfolding async_update_event_data_def
    by (auto split: prod.splits sum.splits)
  from guard_success [OF f] obtain t w w' where
    "fetch_event_data g rp tr t DEFAULT_EVENT_COUNT DEFAULT_EVENT_OFFSET w = (Inr d, w')"
    by blast
  from fetch_event_data_success [OF this] obtain base path payload where
    b: "map_of g ''API_BASE'' = Some base" "map_of g ''EVENT_DATA_PATH'' = Some path"
       "tr (event_request base path t) w = (Body payload, w')"
    and d: "d = [(''raw'', payload), (''events'', JArr (map JObj (extract_events payload)))]"
    by blast
  from dd d have "data = event_batch tbl payload"
    by (simp only: stamp_fetched event_batch_def)
  with b show ?thesis by blast
qed

lemma api_globals_event:
  "map_of api_globals ''API_BASE'' = Some API_BASE"
  "map_of api_globals ''EVENT_DATA_PATH'' = Some EVENT_DATA_PATH"
  by (simp_all add: api_globals_def)

lemma fetch_event_data_answer:
  "fetch_event_data api_globals rp (answer_with payload) tok c off () =
     (case request_json_checks rp payload of
        Inl e \<Rightarrow> (Inl e, ())
      | Inr p \<Rightarrow> (Inr [(''raw'', p), (''events'', JArr (map JObj (extract_events p)))], ()))"
  by (simp add: fetch_event_data_def global_name_def api_globals_event request_json_def
      answer_with_def split: sum.splits)

lemma update_with_token:
  assumes "request_json_checks rp payload = Inr payload"
  shows "async_update_event_data api_globals rp (answer_with payload) username tbl with_token =
     (Inr (stamp_event_data tbl
             [(''raw'', payload), (''events'', JArr (map JObj (extract_events payload)))]),
      with_token\<lparr> fetch_calls := 1 \<rparr>)"
  by (simp add: async_update_event_data_def fetch_with_auth_retry_def acquire_token_def
      call_fetcher_def with_token_def fetch_event_data_answer assms)

text \<open>A successful refresh, with the table \<^verbatim>\<open>{"IGN": "Ignition"}\<close>.\<close>

theorem async_update_event_data_stamps_witness:
  "fst (async_update_event_data api_globals no_repr (answer_with ignition_log) ''user''
          (Some [(''IGN'', ''Ignition'')]) with_token)
   = Inr [(''raw'', ignition_log),
          (''events'', JArr [JObj [(''type'', JStr ''IGN''), (''type_translated'', JStr ''Ignition'')]]),
          (''count'', JInt 100), (''offset'', JInt 0),
          (''translation_language'', JStr ''uk''), (''translations_loaded'', JBool True)]"
proof -
  let ?tbl = "Some [(''IGN'', ''Ignition'')]"
  let ?run = "async_update_event_data api_globals no_repr (answer_with ignition_log) ''user''
                ?tbl with_token"
  have ok: "request_json_checks no_repr ignition_log = Inr ignition_log"
    by (simp add: ignition_log_def py_get_def status_ok_def)
  from update_with_token [OF ok] obtain data s' where h: "?run = (Inr data, s')"
    by blast
  from async_update_event_data_stamps [OF h] obtain base path tok w w' payload where
    t: "answer_with ignition_log (event_request base path tok) w = (Body payload, w')"
    and d: "data = event_batch ?tbl payload"
    by blast
  from t have "payload = ignition_log" by (simp add: answer_with_def)
  with d have "data = event_batch ?tbl ignition_log" by simp
  also have "\<dots> = [(''raw'', ignition_log),
          (''events'', JArr [JObj [(''type'', JStr ''IGN''), (''type_translated'', JStr ''Ignition'')]]),
          (''count'', JInt 100), (''offset'', JInt 0),
          (''translation_language'', JStr ''uk''), (''translations_loaded'', JBool True)]"
    by (simp add: event_batch_def ignition_log_def py_get_def translate_event_def dict_set_def
        DEFAULT_EVENT_COUNT_def DEFAULT_EVENT_OFFSET_def DEFAULT_TRANSLATION_LANGUAGE_def)
  finally show ?thesis using h by simp
qed

text \<open>
  The claim as stated fails when the translation file is the empty object: the table is
  fetched and empty, and the refresh publishes \<^verbatim>\<open>translations_loaded = True\<close>.
\<close>

theorem empty_table_loaded_counterexample:
  "load_translations api_globals no_repr (answer_with (JObj [])) () = (Inr (Some []), ())
   \<and> fst (async_update_event_data api_globals no_repr (answer_with (JArr [])) ''user''
            (Some []) with_token)
     = Inr [(''raw'', JArr []), (''events'', JArr []),
            (''count'', JInt 100), (''offset'', JInt 0),
            (''translation_language'', JStr ''uk''), (''translations_loaded'', JBool True)]"
proof
  show "load_translations api_globals no_repr (answer_with (JObj [])) () = (Inr (Some []), ())"
    by (simp add: load_translations_def fetch_translations_def global_name_def api_globals_def
        request_json_def answer_with_def py_get_def status_ok_def)
next
  have ok: "request_json_checks no_repr (JArr []) = Inr (JArr [])" by simp
  show "fst (async_update_event_data api_globals no_repr (answer_with (JArr [])) ''user''
            (Some []) with_token)
     = Inr [(''raw'', JArr []), (''events'', JArr []),
            (''count'', JInt 100), (''offset'', JInt 0),
            (''translation_language'', JStr ''uk''), (''translations_loaded'', JBool True)]"
    by (simp add: update_with_token [OF ok] stamp_event_data_def py_get_def dict_set_def
        DEFAULT_EVENT_COUNT_def DEFAULT_EVENT_OFFSET_def DEFAULT_TRANSLATION_LANGUAGE_def)
qed

end
